theory Spec2Isabelle
  imports Complex_Main "HOL-Library.Product_Lexorder" "HOL-Library.Multiset"
begin

section \<open>Price versus fundamentals: the decomposition engine\<close>

text \<open>
  This theory embeds the computational core of
  \<^verbatim>\<open>scripts/Price vs Fundamentals/build_price_vs_fundamentals.py\<close>:
  \<^verbatim>\<open>safe_pos\<close>, the normalisation done by \<^verbatim>\<open>load_pe_monthly\<close> after the
  three columns have been picked and parsed, \<^verbatim>\<open>decompose_endpoints\<close> and
  \<^verbatim>\<open>rolling_decomposition\<close>.

  Numbers are IEEE doubles in the source. They are modelled by a type with an exact real
  for every finite value, the two infinities and NaN. Arithmetic on finite values is exact:
  a double quotient that rounds, overflows to an infinity or underflows to zero is here
  the exact real quotient, and the sign of zero is not represented. Statements that are
  not about exact real arithmetic are worded so that they do not rest on this: they speak
  of the computed quotient or logarithm, whatever its value.
\<close>

subsection \<open>Floating-point values\<close>

datatype npfloat = Fin real | PInf | NInf | NaN

fun isnan :: "npfloat \<Rightarrow> bool" where
  "isnan NaN = True"
| "isnan _ = False"

definition notna :: "npfloat \<Rightarrow> bool" where
  \<comment> \<open>\<^verbatim>\<open>pd.notna\<close>\<close>
  "notna x = (\<not> isnan x)"

fun isfinite :: "npfloat \<Rightarrow> bool" where
  \<comment> \<open>\<^verbatim>\<open>np.isfinite\<close>\<close>
  "isfinite (Fin r) = True"
| "isfinite _ = False"

fun fless :: "npfloat \<Rightarrow> npfloat \<Rightarrow> bool" where
  \<comment> \<open>\<^verbatim>\<open>a < b\<close>; every comparison with NaN is false\<close>
  "fless (Fin a) (Fin b) = (a < b)"
| "fless (Fin a) PInf = True"
| "fless NInf (Fin b) = True"
| "fless NInf PInf = True"
| "fless _ _ = False"

definition fgt :: "npfloat \<Rightarrow> npfloat \<Rightarrow> bool" where
  \<comment> \<open>\<^verbatim>\<open>a > b\<close>\<close>
  "fgt a b = fless b a"

definition fge :: "npfloat \<Rightarrow> npfloat \<Rightarrow> bool" where
  \<comment> \<open>\<^verbatim>\<open>a >= b\<close>\<close>
  "fge a b = (fless b a \<or> (a = b \<and> \<not> isnan a))"

fun fabs :: "npfloat \<Rightarrow> npfloat" where
  "fabs (Fin r) = Fin \<bar>r\<bar>"
| "fabs PInf = PInf"
| "fabs NInf = PInf"
| "fabs NaN = NaN"

fun fneg :: "npfloat \<Rightarrow> npfloat" where
  "fneg (Fin r) = Fin (- r)"
| "fneg PInf = NInf"
| "fneg NInf = PInf"
| "fneg NaN = NaN"

fun fdiv :: "npfloat \<Rightarrow> npfloat \<Rightarrow> npfloat" where
  \<comment> \<open>IEEE division, exact on finite operands (no rounding, overflow or underflow);
      a zero divisor counts as \<open>+0\<close>\<close>
  "fdiv NaN y = NaN"
| "fdiv x NaN = NaN"
| "fdiv (Fin a) (Fin b) =
     (if b \<noteq> 0 then Fin (a / b) else if 0 < a then PInf else if a < 0 then NInf else NaN)"
| "fdiv (Fin a) PInf = Fin 0"
| "fdiv (Fin a) NInf = Fin 0"
| "fdiv PInf (Fin b) = (if 0 \<le> b then PInf else NInf)"
| "fdiv NInf (Fin b) = (if 0 \<le> b then NInf else PInf)"
| "fdiv PInf PInf = NaN"
| "fdiv PInf NInf = NaN"
| "fdiv NInf PInf = NaN"
| "fdiv NInf NInf = NaN"

fun fmul :: "npfloat \<Rightarrow> npfloat \<Rightarrow> npfloat" where
  "fmul NaN y = NaN"
| "fmul x NaN = NaN"
| "fmul (Fin a) (Fin b) = Fin (a * b)"
| "fmul (Fin a) PInf = (if 0 < a then PInf else if a < 0 then NInf else NaN)"
| "fmul (Fin a) NInf = (if 0 < a then NInf else if a < 0 then PInf else NaN)"
| "fmul PInf (Fin b) = (if 0 < b then PInf else if b < 0 then NInf else NaN)"
| "fmul NInf (Fin b) = (if 0 < b then NInf else if b < 0 then PInf else NaN)"
| "fmul PInf PInf = PInf"
| "fmul PInf NInf = NInf"
| "fmul NInf PInf = NInf"
| "fmul NInf NInf = PInf"

fun np_log :: "npfloat \<Rightarrow> npfloat" where
  \<comment> \<open>\<^verbatim>\<open>np.log\<close>: \<open>-inf\<close> at zero, NaN below zero\<close>
  "np_log (Fin r) = (if 0 < r then Fin (ln r) else if r = 0 then NInf else NaN)"
| "np_log PInf = PInf"
| "np_log NInf = NaN"
| "np_log NaN = NaN"

definition np_maximum :: "npfloat \<Rightarrow> npfloat \<Rightarrow> npfloat" where
  "np_maximum a b = (if isnan a \<or> isnan b then NaN else if fless a b then b else a)"

definition np_minimum :: "npfloat \<Rightarrow> npfloat \<Rightarrow> npfloat" where
  "np_minimum a b = (if isnan a \<or> isnan b then NaN else if fless b a then b else a)"

definition np_clip :: "npfloat \<Rightarrow> npfloat \<Rightarrow> npfloat \<Rightarrow> npfloat" where
  \<comment> \<open>\<^verbatim>\<open>np.clip(x, lo, hi)\<close> is \<^verbatim>\<open>minimum(maximum(x, lo), hi)\<close>\<close>
  "np_clip x lo hi = np_minimum (np_maximum x lo) hi"

datatype error = ValueError | ZeroDivisionError

definition py_truediv :: "npfloat \<Rightarrow> npfloat \<Rightarrow> error + npfloat" where
  \<comment> \<open>\<^verbatim>\<open>a / b\<close> on Python floats: a zero divisor raises\<close>
  "py_truediv a b = (if b = Fin 0 then Inl ZeroDivisionError else Inr (fdiv a b))"

subsection \<open>Column helpers\<close>

definition safe_pos :: "npfloat \<Rightarrow> npfloat" where
  \<comment> \<open>\<^verbatim>\<open>x.where(x > 0, np.nan)\<close>, on one element\<close>
  "safe_pos x = (if fgt x (Fin 0) then x else NaN)"

type_synonym timestamp = "int \<times> int \<times> int"

fun to_month_start :: "timestamp \<Rightarrow> timestamp" where
  \<comment> \<open>(year, month, day) to the first day of its month\<close>
  "to_month_start (y, m, d) = (y, m, 1)"

subsection \<open>Panels and endpoint decomposition\<close>

record panel_row =
  date :: timestamp
  price :: npfloat
  pe :: npfloat
  eps :: npfloat

definition dropna_panel :: "panel_row list \<Rightarrow> panel_row list" where
  \<comment> \<open>\<^verbatim>\<open>panel.dropna(subset=["price", "pe", "eps"])\<close>\<close>
  "dropna_panel panel = filter (\<lambda>r. notna (price r) \<and> notna (pe r) \<and> notna (eps r)) panel"

record endpoint_result =
  d_start :: timestamp
  d_end :: timestamp
  log_price :: npfloat
  log_eps :: npfloat
  log_multiple :: npfloat
  share_eps_pct :: npfloat
  share_multiple_pct :: npfloat

definition share_denom :: "npfloat \<Rightarrow> npfloat" where
  \<comment> \<open>\<^verbatim>\<open>denom = log_price if abs(log_price) > 1e-12 else np.nan\<close>\<close>
  "share_denom lp = (if fgt (fabs lp) (Fin (1 / 10 ^ 12)) then lp else NaN)"

definition share_of :: "npfloat \<Rightarrow> npfloat \<Rightarrow> npfloat" where
  \<comment> \<open>\<^verbatim>\<open>(log_x / denom) if np.isfinite(denom) else np.nan\<close>; a finite \<open>denom\<close> is not
      zero (lemma \<open>share_denom_nonzero\<close>), so this division never raises\<close>
  "share_of lx denom = (if isfinite denom then fdiv lx denom else NaN)"

definition pct_of :: "npfloat \<Rightarrow> npfloat" where
  \<comment> \<open>\<^verbatim>\<open>float(100 * share) if pd.notna(share) else np.nan\<close>\<close>
  "pct_of share = (if notna share then fmul (Fin 100) share else NaN)"

definition endpoint_record ::
  "panel_row \<Rightarrow> panel_row \<Rightarrow> npfloat \<Rightarrow> npfloat \<Rightarrow> npfloat \<Rightarrow> endpoint_result" where
  \<comment> \<open>lines 100 to 117, from the three quotients on\<close>
  "endpoint_record s e qp qe qm =
     (let lp = np_log qp; le = np_log qe; lm = np_log qm;
          denom = share_denom lp;
          share_eps = share_of le denom;
          share_mult = share_of lm denom
      in \<lparr> d_start = date s, d_end = date e,
           log_price = lp, log_eps = le, log_multiple = lm,
           share_eps_pct = pct_of share_eps,
           share_multiple_pct = pct_of share_mult \<rparr>)"

definition decompose_endpoints :: "panel_row list \<Rightarrow> error + endpoint_result" where
  "decompose_endpoints panel =
     (let p = dropna_panel panel in
      if length p < 2 then Inl ValueError
      else
        (let s = hd p; e = last p in
         (case py_truediv (price e) (price s) of
            Inl err \<Rightarrow> Inl err
          | Inr qp \<Rightarrow>
             (case py_truediv (eps e) (eps s) of
                Inl err \<Rightarrow> Inl err
              | Inr qe \<Rightarrow>
                 (case py_truediv (pe e) (pe s) of
                    Inl err \<Rightarrow> Inl err
                  | Inr qm \<Rightarrow> Inr (endpoint_record s e qp qe qm))))))"

subsection \<open>Rolling decomposition\<close>

definition py_range :: "int \<Rightarrow> int \<Rightarrow> int list" where
  \<comment> \<open>\<^verbatim>\<open>range(a, b)\<close>\<close>
  "py_range a b = [a..b - 1]"

definition slice_index :: "nat \<Rightarrow> int \<Rightarrow> nat" where
  \<comment> \<open>a slice bound of Python: a negative bound counts from the end, then it is
      clamped to the length\<close>
  "slice_index n k = (if k < 0 then nat (max 0 (k + int n)) else min (nat k) n)"

definition iloc_slice :: "'a list \<Rightarrow> int \<Rightarrow> int \<Rightarrow> 'a list" where
  \<comment> \<open>\<^verbatim>\<open>p.iloc[a : b]\<close>\<close>
  "iloc_slice xs a b =
     (let lo = slice_index (length xs) a; hi = slice_index (length xs) b
      in take (hi - lo) (drop lo xs))"

record rolling_row =
  r_ticker :: string
  r_start :: timestamp
  r_end :: timestamp
  r_log_price :: npfloat
  r_log_eps :: npfloat
  r_log_multiple :: npfloat
  stable_for_shares :: bool
  r_share_eps_pct :: npfloat
  r_share_multiple_pct :: npfloat

definition window_row :: "string \<Rightarrow> npfloat \<Rightarrow> npfloat \<Rightarrow> endpoint_result \<Rightarrow> rolling_row" where
  \<comment> \<open>the loop body after the \<^verbatim>\<open>try\<close>, lines 143 to 171\<close>
  "window_row ticker min_abs_log_price share_cap_pct d =
     (let stable = (isfinite (log_price d) \<and> fge (fabs (log_price d)) min_abs_log_price);
          share_eps = (if stable
                       then np_clip (share_eps_pct d) (fneg share_cap_pct) share_cap_pct
                       else NaN);
          share_mult = (if stable
                        then np_clip (share_multiple_pct d) (fneg share_cap_pct) share_cap_pct
                        else NaN)
      in \<lparr> r_ticker = ticker, r_start = d_start d, r_end = d_end d,
           r_log_price = log_price d, r_log_eps = log_eps d,
           r_log_multiple = log_multiple d,
           stable_for_shares = stable,
           r_share_eps_pct = share_eps,
           r_share_multiple_pct = share_mult \<rparr>)"

fun rolling_loop ::
  "panel_row list \<Rightarrow> string \<Rightarrow> int \<Rightarrow> npfloat \<Rightarrow> npfloat \<Rightarrow> int list \<Rightarrow>
   rolling_row list \<Rightarrow> rolling_row list" where
  \<comment> \<open>the \<^verbatim>\<open>for\<close> loop; a window whose decomposition raises is skipped\<close>
  "rolling_loop p ticker w m c [] rows = rows"
| "rolling_loop p ticker w m c (i # rest) rows =
     (case decompose_endpoints (iloc_slice p (i - w) (i + 1)) of
        Inl err \<Rightarrow> rolling_loop p ticker w m c rest rows
      | Inr d \<Rightarrow> rolling_loop p ticker w m c rest (rows @ [window_row ticker m c d]))"

definition rolling_decomposition ::
  "panel_row list \<Rightarrow> string \<Rightarrow> int \<Rightarrow> npfloat \<Rightarrow> npfloat \<Rightarrow> error + rolling_row list" where
  \<comment> \<open>the dates of a loaded panel are distinct (lemma \<open>load_pe_monthly_dates\<close>), so the
      sort has one possible result there; on equal dates the input order is kept\<close>
  "rolling_decomposition panel ticker window_months min_abs_log_price share_cap_pct =
     (let p = sort_key date (dropna_panel panel)
      in Inr (rolling_loop p ticker window_months min_abs_log_price share_cap_pct
                (py_range window_months (int (length p))) []))"

subsection \<open>The monthly loader\<close>

text \<open>
  Reading the file and picking the three columns are not modelled. A raw row holds what
  \<^verbatim>\<open>pd.to_datetime(..., errors="coerce")\<close> and \<^verbatim>\<open>pd.to_numeric(..., errors="coerce")\<close> make
  of the picked cells: a date or NaT (\<open>None\<close>), and two numbers or NaN.
\<close>

record raw_row =
  raw_date :: "timestamp option"
  raw_price :: npfloat
  raw_pe :: npfloat

record monthly_row =
  m_date :: timestamp
  m_price :: npfloat
  m_pe :: npfloat

definition normalize_rows :: "raw_row list \<Rightarrow> monthly_row list" where
  \<comment> \<open>lines 57 to 70: month start, \<^verbatim>\<open>safe_pos\<close> on both columns, rows without a date dropped\<close>
  "normalize_rows raw =
     concat (map (\<lambda>r. case raw_date r of
                           None \<Rightarrow> []
                         | Some t \<Rightarrow> [\<lparr> m_date = to_month_start t,
                                        m_price = safe_pos (raw_price r),
                                        m_pe = safe_pos (raw_pe r) \<rparr>]) raw)"

definition last_valid :: "npfloat list \<Rightarrow> npfloat" where
  \<comment> \<open>\<^verbatim>\<open>GroupBy.last\<close> on one column of one group: the last entry that is not NaN\<close>
  "last_valid xs = (case filter notna xs of [] \<Rightarrow> NaN | y # ys \<Rightarrow> last (y # ys))"

definition groupby_date_last :: "monthly_row list \<Rightarrow> monthly_row list" where
  \<comment> \<open>\<^verbatim>\<open>out.groupby("date", as_index=False).last()\<close>: one row per date, dates ascending\<close>
  "groupby_date_last rows =
     map (\<lambda>k. let g = filter (\<lambda>r. m_date r = k) rows
               in \<lparr> m_date = k,
                    m_price = last_valid (map m_price g),
                    m_pe = last_valid (map m_pe g) \<rparr>)
         (sort (remdups (map m_date rows)))"

definition implied_eps :: "npfloat \<Rightarrow> npfloat \<Rightarrow> npfloat" where
  \<comment> \<open>\<^verbatim>\<open>safe_pos(out["price"] / out["pe"])\<close>, on one row; array division does not raise\<close>
  "implied_eps p m = safe_pos (fdiv p m)"

definition sorted_by_date_of :: "monthly_row list \<Rightarrow> monthly_row list \<Rightarrow> bool" where
  \<comment> \<open>what \<^verbatim>\<open>sort_values("date")\<close> guarantees of its result \<open>ys\<close> on the frame \<open>xs\<close>: the
      same rows, dates ascending; the default quicksort may put equal dates in any order\<close>
  "sorted_by_date_of xs ys = (mset ys = mset xs \<and> sorted (map m_date ys))"

definition load_pe_monthly ::
  "(monthly_row list \<Rightarrow> monthly_row list) \<Rightarrow> raw_row list \<Rightarrow> panel_row list" where
  \<comment> \<open>lines 69 to 78; the sort of line 70 is the parameter \<open>sort_values\<close>, of which only
      \<open>sorted_by_date_of\<close> is known\<close>
  "load_pe_monthly sort_values raw =
     map (\<lambda>r. \<lparr> date = m_date r, price = m_price r, pe = m_pe r,
                  eps = implied_eps (m_price r) (m_pe r) \<rparr>)
         (groupby_date_last (sort_values (normalize_rows raw)))"

subsection \<open>Predicates of the specification\<close>

definition valid_obs :: "panel_row \<Rightarrow> bool" where
  \<comment> \<open>a valid observation: positive price and multiple, implied value their quotient\<close>
  "valid_obs r =
     (case (price r, pe r) of
        (Fin p, Fin m) \<Rightarrow> 0 < p \<and> 0 < m \<and> eps r = Fin (p / m)
      | _ \<Rightarrow> False)"


definition cleaned_row :: "panel_row \<Rightarrow> bool" where
  \<comment> \<open>a row as the loader leaves it: every field is NaN or positive\<close>
  "cleaned_row r =
     (safe_pos (price r) = price r \<and> safe_pos (pe r) = pe r \<and> safe_pos (eps r) = eps r)"

definition valid_rows :: "panel_row list \<Rightarrow> panel_row list" where
  \<comment> \<open>the rows where price, multiple and implied value are all defined and positive\<close>
  "valid_rows panel =
     filter (\<lambda>r. fgt (price r) (Fin 0) \<and> fgt (pe r) (Fin 0) \<and> fgt (eps r) (Fin 0)) panel"

fun fsgn :: "npfloat \<Rightarrow> npfloat" where
  "fsgn (Fin r) = Fin (sgn r)"
| "fsgn PInf = Fin 1"
| "fsgn NInf = Fin (- 1)"
| "fsgn NaN = NaN"

definition clamp_spec :: "npfloat \<Rightarrow> npfloat \<Rightarrow> npfloat" where
  \<comment> \<open>the clipping rule in the words of the specification: \<open>sign(s) * cap\<close> when
      \<open>|s| > cap\<close>, else \<open>s\<close>\<close>
  "clamp_spec cap s = (if fgt (fabs s) cap then fmul (fsgn s) cap else s)"

definition in_cap :: "real \<Rightarrow> npfloat \<Rightarrow> bool" where
  \<comment> \<open>\<open>s\<close> lies in \<open>[-cap, +cap]\<close>\<close>
  "in_cap cap s = (fge s (Fin (- cap)) \<and> fge (Fin cap) s)"

definition window_rows ::
  "panel_row list \<Rightarrow> string \<Rightarrow> int \<Rightarrow> npfloat \<Rightarrow> npfloat \<Rightarrow> int \<Rightarrow> rolling_row list" where
  \<comment> \<open>what one turn of the loop appends\<close>
  "window_rows p ticker w m c i =
     (case decompose_endpoints (iloc_slice p (i - w) (i + 1)) of
        Inl err \<Rightarrow> []
      | Inr d \<Rightarrow> [window_row ticker m c d])"

subsection \<open>Example series\<close>

definition example_series :: "panel_row list" where
  \<comment> \<open>the first example of the specification: price 100 at multiple 10, then price 150
      at multiple 12\<close>
  "example_series =
     [\<lparr>date = (2020, 1, 1), price = Fin 100, pe = Fin 10, eps = Fin 10\<rparr>,
      \<lparr>date = (2020, 12, 1), price = Fin 150, pe = Fin 12, eps = Fin (25 / 2)\<rparr>]"

definition example_result :: endpoint_result where
  "example_result =
     endpoint_record
       \<lparr>date = (2020, 1, 1), price = Fin 100, pe = Fin 10, eps = Fin 10\<rparr>
       \<lparr>date = (2020, 12, 1), price = Fin 150, pe = Fin 12, eps = Fin (25 / 2)\<rparr>
       (Fin (3 / 2)) (Fin (5 / 4)) (Fin (6 / 5))"

definition flat_series :: "panel_row list" where
  \<comment> \<open>the second example: two months with the same price\<close>
  "flat_series =
     [\<lparr>date = (2020, 1, 1), price = Fin 100, pe = Fin 10, eps = Fin 10\<rparr>,
      \<lparr>date = (2020, 2, 1), price = Fin 100, pe = Fin 8, eps = Fin (25 / 2)\<rparr>]"

definition flat_result :: endpoint_result where
  "flat_result =
     endpoint_record
       \<lparr>date = (2020, 1, 1), price = Fin 100, pe = Fin 10, eps = Fin 10\<rparr>
       \<lparr>date = (2020, 2, 1), price = Fin 100, pe = Fin 8, eps = Fin (25 / 2)\<rparr>
       (Fin 1) (Fin (5 / 4)) (Fin (4 / 5))"

section \<open>Auxiliary facts\<close>

subsection \<open>Floating-point values\<close>

lemma safe_pos_fixed_iff: "safe_pos x = x \<longleftrightarrow> (isnan x \<or> fgt x (Fin 0))"
  by (cases x) (auto simp: safe_pos_def fgt_def)

lemma safe_pos_idem: "safe_pos (safe_pos x) = safe_pos x"
  by (simp add: safe_pos_def)

lemma share_denom_nonzero: "isfinite (share_denom lp) \<Longrightarrow> share_denom lp \<noteq> Fin 0"
  by (cases lp) (auto simp: share_denom_def fgt_def split: if_splits)

lemma np_clip_Fin:
  "np_clip (Fin s) (Fin (- c)) (Fin c) =
     (if s < - c then (if c < - c then Fin c else Fin (- c))
      else if c < s then Fin c else Fin s)"
  by (simp add: np_clip_def np_maximum_def np_minimum_def)

lemma np_clip_clamp_spec:
  assumes "0 \<le> c"
  shows "np_clip s (fneg (Fin c)) (Fin c) = clamp_spec (Fin c) s"
proof (cases s)
  case (Fin x)
  then show ?thesis
    using assms by (auto simp: np_clip_Fin clamp_spec_def fgt_def sgn_if abs_if)
next
  case PInf
  then show ?thesis
    by (simp add: np_clip_def np_maximum_def np_minimum_def clamp_spec_def fgt_def)
next
  case NInf
  then show ?thesis
    using assms
    by (simp add: np_clip_def np_maximum_def np_minimum_def clamp_spec_def fgt_def)
next
  case NaN
  then show ?thesis
    by (simp add: np_clip_def np_maximum_def np_minimum_def clamp_spec_def fgt_def)
qed

lemma np_clip_in_cap:
  assumes "0 \<le> c" and "notna s"
  shows "in_cap c (np_clip s (fneg (Fin c)) (Fin c))"
  using assms
  by (cases s) (auto simp: np_clip_Fin in_cap_def fge_def notna_def
      np_clip_def np_maximum_def np_minimum_def)

lemma np_clip_inside:
  assumes "in_cap c s"
  shows "np_clip s (fneg (Fin c)) (Fin c) = s"
  using assms by (cases s) (auto simp: np_clip_Fin in_cap_def fge_def)

lemma in_cap_FinE:
  assumes "in_cap c s"
  obtains x where "s = Fin x"
  using assms by (cases s) (auto simp: in_cap_def fge_def)

lemma ln_split:
  fixes p0 p1 m0 m1 :: real
  assumes "0 < p0" "0 < p1" "0 < m0" "0 < m1"
  shows "ln (p1 / p0) = ln ((p1 / m1) / (p0 / m0)) + ln (m1 / m0)"
proof -
  have "ln (p1 / p0) = ln p1 - ln p0" "ln (m1 / m0) = ln m1 - ln m0"
    using assms by (simp_all add: ln_div)
  moreover have "ln ((p1 / m1) / (p0 / m0)) = (ln p1 - ln m1) - (ln p0 - ln m0)"
    using assms by (simp add: ln_div ln_mult)
  ultimately show ?thesis
    by simp
qed

subsection \<open>Endpoint decomposition\<close>

lemma valid_obsE:
  assumes "valid_obs r"
  obtains p m where "price r = Fin p" "pe r = Fin m" "0 < p" "0 < m" "eps r = Fin (p / m)"
  using assms unfolding valid_obs_def
  by (cases "price r"; cases "pe r") auto

lemma length_dropna_le: "length (dropna_panel xs) \<le> length xs"
  by (simp add: dropna_panel_def)

lemma decompose_short: "length xs < 2 \<Longrightarrow> decompose_endpoints xs = Inl ValueError"
  using length_dropna_le [of xs] by (simp add: decompose_endpoints_def Let_def)

lemma decompose_Inr_length:
  "decompose_endpoints panel = Inr d \<Longrightarrow> 2 \<le> length (dropna_panel panel)"
  by (auto simp: decompose_endpoints_def Let_def split: if_splits)

lemma decompose_valid_endpoints:
  assumes s: "price s = Fin p0" "pe s = Fin m0" "eps s = Fin (p0 / m0)" "0 < p0" "0 < m0"
    and e: "price e = Fin p1" "pe e = Fin m1" "eps e = Fin (p1 / m1)" "0 < p1" "0 < m1"
    and p: "hd (dropna_panel panel) = s" "last (dropna_panel panel) = e"
    and len: "2 \<le> length (dropna_panel panel)"
  shows "decompose_endpoints panel =
           Inr (endpoint_record s e (Fin (p1 / p0)) (Fin ((p1 / m1) / (p0 / m0))) (Fin (m1 / m0)))"
  using assms by (simp add: decompose_endpoints_def py_truediv_def Let_def)

lemma decompose_valid_result:
  assumes dec: "decompose_endpoints panel = Inr d"
    and vs: "valid_obs (hd (dropna_panel panel))"
    and ve: "valid_obs (last (dropna_panel panel))"
  shows "\<exists>a b c. log_price d = Fin a \<and> log_eps d = Fin b \<and> log_multiple d = Fin c \<and>
           a = b + c \<and>
           share_eps_pct d = pct_of (share_of (Fin b) (share_denom (Fin a))) \<and>
           share_multiple_pct d = pct_of (share_of (Fin c) (share_denom (Fin a)))"
proof -
  let ?s = "hd (dropna_panel panel)" and ?e = "last (dropna_panel panel)"
  from vs obtain p0 m0 where s: "price ?s = Fin p0" "pe ?s = Fin m0" "0 < p0" "0 < m0"
      "eps ?s = Fin (p0 / m0)"
    by (rule valid_obsE)
  from ve obtain p1 m1 where e: "price ?e = Fin p1" "pe ?e = Fin m1" "0 < p1" "0 < m1"
      "eps ?e = Fin (p1 / m1)"
    by (rule valid_obsE)
  have len: "2 \<le> length (dropna_panel panel)"
    using dec by (rule decompose_Inr_length)
  have "decompose_endpoints panel =
          Inr (endpoint_record ?s ?e (Fin (p1 / p0)) (Fin ((p1 / m1) / (p0 / m0)))
                 (Fin (m1 / m0)))"
    using s e len by (intro decompose_valid_endpoints) simp_all
  with dec have d: "d = endpoint_record ?s ?e (Fin (p1 / p0)) (Fin ((p1 / m1) / (p0 / m0)))
                 (Fin (m1 / m0))"
    by simp
  have pos: "0 < p1 / p0" "0 < (p1 / m1) / (p0 / m0)" "0 < m1 / m0"
    using s e by simp_all
  have "log_price d = Fin (ln (p1 / p0))" "log_eps d = Fin (ln ((p1 / m1) / (p0 / m0)))"
    "log_multiple d = Fin (ln (m1 / m0))"
    "share_eps_pct d = pct_of (share_of (Fin (ln ((p1 / m1) / (p0 / m0))))
                                (share_denom (Fin (ln (p1 / p0)))))"
    "share_multiple_pct d = pct_of (share_of (Fin (ln (m1 / m0)))
                                (share_denom (Fin (ln (p1 / p0)))))"
    using pos by (simp_all add: d endpoint_record_def Let_def)
  moreover have "ln (p1 / p0) = ln ((p1 / m1) / (p0 / m0)) + ln (m1 / m0)"
    using s e by (intro ln_split)
  ultimately show ?thesis by simp
qed

lemma pct_share_Fin:
  assumes "pct_of (share_of (Fin b) (share_denom (Fin a))) = Fin x"
  shows "a \<noteq> 0 \<and> x = 100 * (b / a)"
  using assms
  by (auto simp: pct_of_def share_of_def share_denom_def fgt_def notna_def split: if_splits)

lemma cleaned_dropna_valid_rows:
  assumes "list_all cleaned_row panel"
  shows "dropna_panel panel = valid_rows panel"
  unfolding dropna_panel_def valid_rows_def
proof (rule filter_cong [OF refl])
  fix r assume "r \<in> set panel"
  with assms have c: "cleaned_row r"
    by (simp add: list_all_iff)
  have "notna x \<longleftrightarrow> fgt x (Fin 0)" if "safe_pos x = x" for x
    using that by (cases x) (auto simp: safe_pos_def notna_def fgt_def split: if_splits)
  with c show "(notna (price r) \<and> notna (pe r) \<and> notna (eps r)) =
      (fgt (price r) (Fin 0) \<and> fgt (pe r) (Fin 0) \<and> fgt (eps r) (Fin 0))"
    by (simp add: cleaned_row_def)
qed

lemma fgt_zero_not_zero: "fgt x (Fin 0) \<Longrightarrow> x \<noteq> Fin 0"
  by (auto simp: fgt_def)

lemma decompose_positive_rows:
  assumes pos: "\<forall>r \<in> set (dropna_panel panel).
                  fgt (price r) (Fin 0) \<and> fgt (pe r) (Fin 0) \<and> fgt (eps r) (Fin 0)"
    and len: "2 \<le> length (dropna_panel panel)"
  shows "\<exists>d. decompose_endpoints panel = Inr d"
proof -
  from len have ne: "dropna_panel panel \<noteq> []"
    by auto
  then have "hd (dropna_panel panel) \<in> set (dropna_panel panel)"
    by simp
  with pos have "price (hd (dropna_panel panel)) \<noteq> Fin 0"
    "pe (hd (dropna_panel panel)) \<noteq> Fin 0" "eps (hd (dropna_panel panel)) \<noteq> Fin 0"
    by (auto dest: fgt_zero_not_zero)
  with len show ?thesis
    by (simp add: decompose_endpoints_def py_truediv_def Let_def)
qed

subsection \<open>The rolling loop\<close>

lemma rolling_loop_concat:
  "rolling_loop p ticker w m c idx rows =
     rows @ concat (map (window_rows p ticker w m c) idx)"
  by (induction idx arbitrary: rows) (simp_all add: window_rows_def split: sum.splits)

lemma rolling_decomposition_concat:
  "rolling_decomposition panel ticker w m c =
     Inr (concat (map (window_rows (sort_key date (dropna_panel panel)) ticker w m c)
                      (py_range w (int (length (dropna_panel panel))))))"
  by (simp add: rolling_decomposition_def rolling_loop_concat Let_def)

lemma mem_window_rows:
  "r \<in> set (window_rows p ticker w m c i) \<longleftrightarrow>
     (\<exists>d. decompose_endpoints (iloc_slice p (i - w) (i + 1)) = Inr d \<and>
          r = window_row ticker m c d)"
  by (cases "decompose_endpoints (iloc_slice p (i - w) (i + 1))")
     (auto simp: window_rows_def)

lemma rolling_row_iff:
  "rolling_decomposition panel ticker w m c = Inr out \<Longrightarrow>
   r \<in> set out \<longleftrightarrow>
     (\<exists>i d. i \<in> set (py_range w (int (length (dropna_panel panel)))) \<and>
            decompose_endpoints
              (iloc_slice (sort_key date (dropna_panel panel)) (i - w) (i + 1)) = Inr d \<and>
            r = window_row ticker m c d)"
  by (auto simp: rolling_decomposition_concat mem_window_rows; blast)

lemma py_range_empty: "b \<le> a \<Longrightarrow> py_range a b = []"
  by (simp add: py_range_def)

lemma set_py_range: "set (py_range a b) = {i. a \<le> i \<and> i < b}"
  by (auto simp: py_range_def)

lemma length_iloc_slice_unit:
  assumes "0 \<le> i"
  shows "length (iloc_slice xs i (i + 1)) \<le> 1"
proof -
  have "nat (i + 1) = Suc (nat i)"
    using assms by (simp add: nat_add_distrib)
  then show ?thesis
    using assms by (simp add: iloc_slice_def slice_index_def Let_def min_def)
qed

lemma window_rows_zero: "0 \<le> i \<Longrightarrow> window_rows p ticker 0 m c i = []"
  using length_iloc_slice_unit [of i p]
  by (simp add: window_rows_def decompose_short)

lemma set_iloc_slice: "set (iloc_slice xs a b) \<subseteq> set xs"
proof -
  have "set (take n (drop k xs)) \<subseteq> set xs" for n k
    using set_take_subset [of n "drop k xs"] set_drop_subset [of k xs] by blast
  then show ?thesis
    by (simp add: iloc_slice_def Let_def)
qed

lemma set_dropna_window:
  "set (dropna_panel (iloc_slice (sort_key date (dropna_panel panel)) a b))
     \<subseteq> set (dropna_panel panel)"
proof -
  have "set (dropna_panel xs) \<subseteq> set xs" for xs
    by (auto simp: dropna_panel_def)
  moreover have "set (iloc_slice (sort_key date (dropna_panel panel)) a b)
      \<subseteq> set (dropna_panel panel)"
    using set_iloc_slice [of "sort_key date (dropna_panel panel)" a b] by simp
  ultimately show ?thesis
    by blast
qed

lemma window_endpoints_valid:
  assumes valid: "list_all valid_obs (dropna_panel panel)"
    and dec: "decompose_endpoints
                (iloc_slice (sort_key date (dropna_panel panel)) a b) = Inr d"
  shows "valid_obs (hd (dropna_panel (iloc_slice (sort_key date (dropna_panel panel)) a b)))"
    and "valid_obs (last (dropna_panel (iloc_slice (sort_key date (dropna_panel panel)) a b)))"
proof -
  let ?q = "dropna_panel (iloc_slice (sort_key date (dropna_panel panel)) a b)"
  from dec have "2 \<le> length ?q"
    by (rule decompose_Inr_length)
  then have ne: "?q \<noteq> []"
    by auto
  then have "hd ?q \<in> set ?q" "last ?q \<in> set ?q"
    by simp_all
  with set_dropna_window [of panel a b]
  have "hd ?q \<in> set (dropna_panel panel)" "last ?q \<in> set (dropna_panel panel)"
    by blast+
  with valid show "valid_obs (hd ?q)" "valid_obs (last ?q)"
    by (simp_all add: list_all_iff)
qed

lemma window_valid_result:
  assumes valid: "list_all valid_obs (dropna_panel panel)"
    and dec: "decompose_endpoints
                (iloc_slice (sort_key date (dropna_panel panel)) a b) = Inr d"
  shows "\<exists>x y z. log_price d = Fin x \<and> log_eps d = Fin y \<and> log_multiple d = Fin z \<and>
           x = y + z \<and>
           share_eps_pct d = pct_of (share_of (Fin y) (share_denom (Fin x))) \<and>
           share_multiple_pct d = pct_of (share_of (Fin z) (share_denom (Fin x)))"
  using decompose_valid_result [OF dec window_endpoints_valid [OF valid dec]] .

subsection \<open>The loader\<close>

lemma last_valid_cases:
  "last_valid xs = NaN \<or> last_valid xs \<in> set xs"
proof (cases "filter notna xs")
  case Nil
  then show ?thesis by (simp add: last_valid_def)
next
  case (Cons y ys)
  then have "last_valid xs = last (filter notna xs)"
    by (simp add: last_valid_def)
  moreover have "last (filter notna xs) \<in> set (filter notna xs)"
    using Cons by (intro last_in_set) simp
  ultimately show ?thesis by simp
qed

lemma last_valid_safe_pos:
  assumes "\<forall>x \<in> set xs. safe_pos x = x"
  shows "safe_pos (last_valid xs) = last_valid xs"
  using last_valid_cases [of xs] assms by (auto simp: safe_pos_def)

lemma normalize_rows_safe:
  "r \<in> set (normalize_rows raw) \<Longrightarrow>
     safe_pos (m_price r) = m_price r \<and> safe_pos (m_pe r) = m_pe r"
  by (auto simp: normalize_rows_def safe_pos_idem split: option.splits)

lemma groupby_rows_safe:
  assumes "\<forall>r \<in> set rows. safe_pos (m_price r) = m_price r \<and> safe_pos (m_pe r) = m_pe r"
    and "g \<in> set (groupby_date_last rows)"
  shows "safe_pos (m_price g) = m_price g \<and> safe_pos (m_pe g) = m_pe g"
  using assms by (auto simp: groupby_date_last_def Let_def intro!: last_valid_safe_pos)

lemma sort_key_sorted_by_date: "sorted_by_date_of xs (sort_key m_date xs)"
  by (simp add: sorted_by_date_of_def)

lemma load_pe_monthly_cleaned:
  assumes "sorted_by_date_of (normalize_rows raw) (sort_values (normalize_rows raw))"
  shows "list_all cleaned_row (load_pe_monthly sort_values raw)"
proof -
  from assms have "set (sort_values (normalize_rows raw)) = set (normalize_rows raw)"
    unfolding sorted_by_date_of_def by (metis mset_eq_setD)
  then have "\<forall>r \<in> set (sort_values (normalize_rows raw)).
          safe_pos (m_price r) = m_price r \<and> safe_pos (m_pe r) = m_pe r"
    using normalize_rows_safe by simp
  then have "\<forall>g \<in> set (groupby_date_last (sort_values (normalize_rows raw))).
          safe_pos (m_price g) = m_price g \<and> safe_pos (m_pe g) = m_pe g"
    using groupby_rows_safe by blast
  then show ?thesis
    by (simp add: load_pe_monthly_def list_all_iff cleaned_row_def implied_eps_def
        safe_pos_idem)
qed

lemma load_pe_monthly_dates:
  "sorted (map date (load_pe_monthly sort_values raw)) \<and>
   distinct (map date (load_pe_monthly sort_values raw))"
proof -
  have "map date (load_pe_monthly sort_values raw) =
          sort (remdups (map m_date (sort_values (normalize_rows raw))))"
    by (simp add: load_pe_monthly_def groupby_date_last_def Let_def comp_def)
  then show ?thesis
    by simp
qed

lemma guarded_quotient:
  fixes dv :: "npfloat \<Rightarrow> npfloat \<Rightarrow> npfloat"
  assumes "\<And>y. dv NaN y = NaN" and "\<And>x. dv x NaN = NaN"
  shows "safe_pos (dv (safe_pos p) (safe_pos m)) =
           (if fgt p (Fin 0) \<and> fgt m (Fin 0) \<and> fgt (dv p m) (Fin 0) then dv p m else NaN)"
  using assms by (simp add: safe_pos_def fgt_def)

lemma fdiv_NaN_right: "fdiv x NaN = NaN"
  by (cases x) simp_all

subsection \<open>The example series\<close>

lemma ln_three_halves_ge: "1 / 3 \<le> ln (3 / 2 :: real)"
proof -
  have "ln (2 / 3 :: real) \<le> 2 / 3 - 1"
    by (rule ln_le_minus_one) simp
  moreover have "ln (2 / 3 :: real) = - ln (3 / 2)"
    by (simp add: ln_div)
  ultimately show ?thesis
    by simp
qed

lemma example_rolling:
  "rolling_decomposition example_series ticker 1 m c = Inr [window_row ticker m c example_result]"
  by (simp add: rolling_decomposition_def example_series_def example_result_def
      dropna_panel_def notna_def py_range_def upto.simps iloc_slice_def slice_index_def
      decompose_endpoints_def py_truediv_def Let_def)

lemma example_window:
  "decompose_endpoints
     (iloc_slice (sort_key date (dropna_panel example_series)) (1 - 1) (1 + 1))
     = Inr example_result"
  by (simp add: example_series_def example_result_def
      dropna_panel_def notna_def iloc_slice_def slice_index_def
      decompose_endpoints_def py_truediv_def Let_def)

lemma example_valid: "list_all valid_obs (dropna_panel example_series)"
  by (simp add: example_series_def dropna_panel_def notna_def valid_obs_def)

lemma example_logs:
  "log_price example_result = Fin (ln (3 / 2))"
  "log_eps example_result = Fin (ln (5 / 4))"
  "log_multiple example_result = Fin (ln (6 / 5))"
  by (simp_all add: example_result_def endpoint_record_def Let_def)

lemma example_shares:
  "share_eps_pct example_result = Fin (100 * (ln (5 / 4) / ln (3 / 2)))"
  "share_multiple_pct example_result = Fin (100 * (ln (6 / 5) / ln (3 / 2)))"
proof -
  have "(1 :: real) / 10 ^ 12 < 1 / 3"
    by simp
  with ln_three_halves_ge have "(1 :: real) / 10 ^ 12 < \<bar>ln (3 / 2)\<bar>"
    by linarith
  then have "share_denom (Fin (ln (3 / 2))) = Fin (ln (3 / 2))"
    by (simp add: share_denom_def fgt_def)
  then show "share_eps_pct example_result = Fin (100 * (ln (5 / 4) / ln (3 / 2)))"
    "share_multiple_pct example_result = Fin (100 * (ln (6 / 5) / ln (3 / 2)))"
    by (simp_all add: example_result_def endpoint_record_def Let_def share_of_def
        pct_of_def notna_def)
qed

lemma example_shares_in_cap:
  "in_cap 200 (share_eps_pct example_result)"
  "in_cap 200 (share_multiple_pct example_result)"
proof -
  have pos: "0 < ln (3 / 2 :: real)"
    using ln_three_halves_ge by linarith
  have "0 \<le> ln (5 / 4 :: real)" "ln (5 / 4 :: real) \<le> ln (3 / 2)"
    "0 \<le> ln (6 / 5 :: real)" "ln (6 / 5 :: real) \<le> ln (3 / 2)"
    by simp_all
  with pos have "0 \<le> ln (5 / 4 :: real) / ln (3 / 2)" "ln (5 / 4 :: real) / ln (3 / 2) \<le> 1"
    "0 \<le> ln (6 / 5 :: real) / ln (3 / 2)" "ln (6 / 5 :: real) / ln (3 / 2) \<le> 1"
    by (simp_all add: divide_le_eq_1)
  then have "- 200 < 100 * (ln (5 / 4 :: real) / ln (3 / 2))"
    "100 * (ln (5 / 4 :: real) / ln (3 / 2)) < 200"
    "- 200 < 100 * (ln (6 / 5 :: real) / ln (3 / 2))"
    "100 * (ln (6 / 5 :: real) / ln (3 / 2)) < 200"
    by linarith+
  then show "in_cap 200 (share_eps_pct example_result)"
    "in_cap 200 (share_multiple_pct example_result)"
    unfolding example_shares in_cap_def fge_def by simp_all
qed

lemma flat_rolling:
  "rolling_decomposition flat_series ticker 1 m c = Inr [window_row ticker m c flat_result]"
  by (simp add: rolling_decomposition_def flat_series_def flat_result_def
      dropna_panel_def notna_def py_range_def upto.simps iloc_slice_def slice_index_def
      decompose_endpoints_def py_truediv_def Let_def)

lemma flat_valid: "list_all valid_obs (dropna_panel flat_series)"
  by (simp add: flat_series_def dropna_panel_def notna_def valid_obs_def)

section \<open>The claims\<close>

text \<open>
  C1. When the first and the last row of the cleaned panel are valid observations
  (positive price and multiple, implied value equal to price divided by multiple), the
  three logarithms of the result are finite and the logarithm of the price change is the
  sum of the logarithm of the value change and the logarithm of the multiple change.
\<close>

theorem log_identity:
  assumes dec: "decompose_endpoints panel = Inr d"
    and vs: "valid_obs (hd (dropna_panel panel))"
    and ve: "valid_obs (last (dropna_panel panel))"
  shows "\<exists>a b c. log_price d = Fin a \<and> log_eps d = Fin b \<and> log_multiple d = Fin c
                  \<and> a = b + c"
  using decompose_valid_result [OF dec vs ve] by blast

theorem log_identity_witness:
  "\<exists>a b c. decompose_endpoints
      [\<lparr>date = (2020, 1, 1), price = Fin 100, pe = Fin 10, eps = Fin 10\<rparr>,
       \<lparr>date = (2020, 12, 1), price = Fin 150, pe = Fin 12, eps = Fin (25 / 2)\<rparr>]
     = Inr \<lparr>d_start = (2020, 1, 1), d_end = (2020, 12, 1),
            log_price = Fin a, log_eps = Fin b, log_multiple = Fin c,
            share_eps_pct = pct_of (share_of (Fin b) (share_denom (Fin a))),
            share_multiple_pct = pct_of (share_of (Fin c) (share_denom (Fin a)))\<rparr>
     \<and> a = ln (3 / 2) \<and> b = ln (5 / 4) \<and> c = ln (6 / 5) \<and> a = b + c"
proof -
  let ?panel = "[\<lparr>date = (2020, 1, 1), price = Fin 100, pe = Fin 10, eps = Fin 10\<rparr>,
       \<lparr>date = (2020, 12, 1), price = Fin 150, pe = Fin 12, eps = Fin (25 / 2)\<rparr>]"
  let ?d = "\<lparr>d_start = (2020, 1, 1), d_end = (2020, 12, 1),
            log_price = Fin (ln (3 / 2)), log_eps = Fin (ln (5 / 4)),
            log_multiple = Fin (ln (6 / 5)),
            share_eps_pct = pct_of (share_of (Fin (ln (5 / 4))) (share_denom (Fin (ln (3 / 2))))),
            share_multiple_pct =
              pct_of (share_of (Fin (ln (6 / 5))) (share_denom (Fin (ln (3 / 2)))))\<rparr>"
  have dec: "decompose_endpoints ?panel = Inr ?d"
    by (simp add: decompose_endpoints_def dropna_panel_def notna_def py_truediv_def
        endpoint_record_def Let_def)
  have vs: "valid_obs (hd (dropna_panel ?panel))"
    by (simp add: dropna_panel_def notna_def valid_obs_def)
  have ve: "valid_obs (last (dropna_panel ?panel))"
    by (simp add: dropna_panel_def notna_def valid_obs_def)
  from log_identity [OF dec vs ve] have "ln (3 / 2) = ln (5 / 4) + ln (6 / 5 :: real)"
    by simp
  with dec show ?thesis
    by (intro exI [of _ "ln (3 / 2)"] exI [of _ "ln (5 / 4)"] exI [of _ "ln (6 / 5)"]) simp
qed

text \<open>
  C2, as the code has it. The rolling decomposer does not validate the window width and
  has no failing path: with width 0 every window holds a single row, its decomposition
  raises, the window is skipped, and the result is the empty sequence. For every width
  the call returns a sequence of records.
\<close>

theorem rolling_width_zero:
  "rolling_decomposition panel ticker 0 m c = Inr [] \<and>
   (\<exists>out. rolling_decomposition panel ticker w m c = Inr out)"
proof
  have "concat (map (window_rows (sort_key date (dropna_panel panel)) ticker 0 m c)
                    (py_range 0 (int (length (dropna_panel panel))))) = []"
    by (simp add: set_py_range window_rows_zero)
  then show "rolling_decomposition panel ticker 0 m c = Inr []"
    by (simp add: rolling_decomposition_concat)
  show "\<exists>out. rolling_decomposition panel ticker w m c = Inr out"
    by (simp add: rolling_decomposition_concat)
qed

text \<open>
  C2, as the specification states it, fails: on the two-row example series with window
  width 0 the call returns the empty sequence instead of failing.
\<close>

theorem rolling_width_zero_counterexample:
  "rolling_decomposition
     [\<lparr>date = (2020, 1, 1), price = Fin 100, pe = Fin 10, eps = Fin 10\<rparr>,
      \<lparr>date = (2020, 12, 1), price = Fin 150, pe = Fin 12, eps = Fin (25 / 2)\<rparr>]
     ''NVDA'' 0 (Fin (1 / 20)) (Fin 200) = Inr []"
  by (simp add: rolling_decomposition_def dropna_panel_def notna_def py_range_def
      upto.simps iloc_slice_def slice_index_def decompose_endpoints_def Let_def)

text \<open>
  C3. On a panel whose fields are each NaN or positive (what the loader produces), the
  endpoint decomposer raises exactly when fewer than two rows have price, multiple and
  implied value all defined and positive, the error is then the \<open>ValueError\<close> of the
  length check, and with two or more such rows it returns a result.
\<close>

theorem endpoint_insufficient_data:
  assumes "list_all cleaned_row panel"
  shows "(decompose_endpoints panel = Inl ValueError \<longleftrightarrow> length (valid_rows panel) < 2)
       \<and> ((\<exists>e. decompose_endpoints panel = Inl e) \<longleftrightarrow> length (valid_rows panel) < 2)
       \<and> (2 \<le> length (valid_rows panel) \<longrightarrow> (\<exists>d. decompose_endpoints panel = Inr d))"
proof -
  have eq: "dropna_panel panel = valid_rows panel"
    using assms by (rule cleaned_dropna_valid_rows)
  have short: "decompose_endpoints panel = Inl ValueError" if "length (valid_rows panel) < 2"
    using that eq by (simp add: decompose_endpoints_def Let_def)
  have long: "\<exists>d. decompose_endpoints panel = Inr d" if "2 \<le> length (valid_rows panel)"
  proof (rule decompose_positive_rows)
    show "\<forall>r \<in> set (dropna_panel panel).
            fgt (price r) (Fin 0) \<and> fgt (pe r) (Fin 0) \<and> fgt (eps r) (Fin 0)"
      by (simp add: eq valid_rows_def)
    show "2 \<le> length (dropna_panel panel)"
      using that by (simp add: eq)
  qed
  have "length (valid_rows panel) < 2 \<or> 2 \<le> length (valid_rows panel)"
    by linarith
  then show ?thesis
  proof
    assume "length (valid_rows panel) < 2"
    with short show ?thesis by auto
  next
    assume "2 \<le> length (valid_rows panel)"
    with long show ?thesis by auto
  qed
qed

theorem endpoint_insufficient_data_witness:
  "list_all cleaned_row
     [\<lparr>date = (2020, 1, 1), price = Fin 100, pe = Fin 10, eps = Fin 10\<rparr>,
      \<lparr>date = (2020, 2, 1), price = Fin 120, pe = NaN, eps = NaN\<rparr>,
      \<lparr>date = (2020, 3, 1), price = Fin 150, pe = Fin 12, eps = Fin (25 / 2)\<rparr>]
   \<and> (\<exists>d. decompose_endpoints
     [\<lparr>date = (2020, 1, 1), price = Fin 100, pe = Fin 10, eps = Fin 10\<rparr>,
      \<lparr>date = (2020, 2, 1), price = Fin 120, pe = NaN, eps = NaN\<rparr>,
      \<lparr>date = (2020, 3, 1), price = Fin 150, pe = Fin 12, eps = Fin (25 / 2)\<rparr>] = Inr d)
   \<and> list_all cleaned_row
     [\<lparr>date = (2020, 1, 1), price = Fin 100, pe = Fin 10, eps = Fin 10\<rparr>,
      \<lparr>date = (2020, 2, 1), price = Fin 120, pe = NaN, eps = NaN\<rparr>]
   \<and> decompose_endpoints
     [\<lparr>date = (2020, 1, 1), price = Fin 100, pe = Fin 10, eps = Fin 10\<rparr>,
      \<lparr>date = (2020, 2, 1), price = Fin 120, pe = NaN, eps = NaN\<rparr>] = Inl ValueError"
proof -
  let ?three = "[\<lparr>date = (2020, 1, 1), price = Fin 100, pe = Fin 10, eps = Fin 10\<rparr>,
      \<lparr>date = (2020, 2, 1), price = Fin 120, pe = NaN, eps = NaN\<rparr>,
      \<lparr>date = (2020, 3, 1), price = Fin 150, pe = Fin 12, eps = Fin (25 / 2)\<rparr>]"
  let ?two = "[\<lparr>date = (2020, 1, 1), price = Fin 100, pe = Fin 10, eps = Fin 10\<rparr>,
      \<lparr>date = (2020, 2, 1), price = Fin 120, pe = NaN, eps = NaN\<rparr>]"
  have c3: "list_all cleaned_row ?three"
    by (simp add: cleaned_row_def safe_pos_def fgt_def)
  have c2: "list_all cleaned_row ?two"
    by (simp add: cleaned_row_def safe_pos_def fgt_def)
  have n3: "2 \<le> length (valid_rows ?three)"
    by (simp add: valid_rows_def fgt_def)
  have n2: "length (valid_rows ?two) < 2"
    by (simp add: valid_rows_def fgt_def)
  from endpoint_insufficient_data [OF c3] n3
  have "\<exists>d. decompose_endpoints ?three = Inr d"
    by blast
  moreover from endpoint_insufficient_data [OF c2] n2
  have "decompose_endpoints ?two = Inl ValueError"
    by blast
  ultimately show ?thesis
    using c3 c2 by blast
qed

text \<open>
  C4. In every record of the rolling output, \<open>stable_for_shares\<close> holds exactly when the
  logarithm of the price change is finite and its absolute value is at least
  \<open>min_abs_log_price\<close>; at equality the record is stable.
\<close>

theorem stability_gate:
  assumes "rolling_decomposition panel ticker w m c = Inr out" and "r \<in> set out"
  shows "(stable_for_shares r \<longleftrightarrow>
            isfinite (r_log_price r) \<and> fge (fabs (r_log_price r)) m)
         \<and> (isfinite (r_log_price r) \<and> fabs (r_log_price r) = m \<longrightarrow> stable_for_shares r)"
proof -
  from assms obtain d where r: "r = window_row ticker m c d"
    by (auto simp: rolling_row_iff)
  have "fge (fabs x) (fabs x)" if "isfinite x" for x
    using that by (cases x) (simp_all add: fge_def)
  then show ?thesis
    by (auto simp: r window_row_def Let_def)
qed

theorem stability_gate_witness:
  "rolling_decomposition
     [\<lparr>date = (2020, 1, 1), price = Fin 100, pe = Fin 10, eps = Fin 10\<rparr>,
      \<lparr>date = (2020, 12, 1), price = Fin 150, pe = Fin 12, eps = Fin (25 / 2)\<rparr>]
     ''NVDA'' 1 (Fin (ln (3 / 2))) (Fin 200)
   = Inr [window_row ''NVDA'' (Fin (ln (3 / 2))) (Fin 200)
           (endpoint_record
              \<lparr>date = (2020, 1, 1), price = Fin 100, pe = Fin 10, eps = Fin 10\<rparr>
              \<lparr>date = (2020, 12, 1), price = Fin 150, pe = Fin 12, eps = Fin (25 / 2)\<rparr>
              (Fin (3 / 2)) (Fin (5 / 4)) (Fin (6 / 5)))]
   \<and> fabs (r_log_price (window_row ''NVDA'' (Fin (ln (3 / 2))) (Fin 200)
           (endpoint_record
              \<lparr>date = (2020, 1, 1), price = Fin 100, pe = Fin 10, eps = Fin 10\<rparr>
              \<lparr>date = (2020, 12, 1), price = Fin 150, pe = Fin 12, eps = Fin (25 / 2)\<rparr>
              (Fin (3 / 2)) (Fin (5 / 4)) (Fin (6 / 5))))) = Fin (ln (3 / 2))
   \<and> stable_for_shares (window_row ''NVDA'' (Fin (ln (3 / 2))) (Fin 200)
           (endpoint_record
              \<lparr>date = (2020, 1, 1), price = Fin 100, pe = Fin 10, eps = Fin 10\<rparr>
              \<lparr>date = (2020, 12, 1), price = Fin 150, pe = Fin 12, eps = Fin (25 / 2)\<rparr>
              (Fin (3 / 2)) (Fin (5 / 4)) (Fin (6 / 5))))"
proof -
  let ?panel = "[\<lparr>date = (2020, 1, 1), price = Fin 100, pe = Fin 10, eps = Fin 10\<rparr>,
      \<lparr>date = (2020, 12, 1), price = Fin 150, pe = Fin 12, eps = Fin (25 / 2)\<rparr>]"
  let ?r = "window_row ''NVDA'' (Fin (ln (3 / 2))) (Fin 200)
           (endpoint_record
              \<lparr>date = (2020, 1, 1), price = Fin 100, pe = Fin 10, eps = Fin 10\<rparr>
              \<lparr>date = (2020, 12, 1), price = Fin 150, pe = Fin 12, eps = Fin (25 / 2)\<rparr>
              (Fin (3 / 2)) (Fin (5 / 4)) (Fin (6 / 5)))"
  have out: "rolling_decomposition ?panel ''NVDA'' 1 (Fin (ln (3 / 2))) (Fin 200) = Inr [?r]"
    by (simp add: rolling_decomposition_def dropna_panel_def notna_def py_range_def
        upto.simps iloc_slice_def slice_index_def decompose_endpoints_def py_truediv_def
        Let_def)
  have mem: "?r \<in> set [?r]"
    by simp
  have lp: "r_log_price ?r = Fin (ln (3 / 2))"
    by (simp add: window_row_def endpoint_record_def Let_def)
  have "fabs (r_log_price ?r) = Fin (ln (3 / 2))"
    by (simp add: lp)
  moreover from stability_gate [OF out mem] have "stable_for_shares ?r"
    by (simp add: lp fge_def)
  ultimately show ?thesis
    using out by simp
qed

text \<open>
  C5. With a non-negative cap, every stable record of the rolling output comes from a
  window whose decomposition gave two shares, and each emitted share is the clamped one:
  \<open>sign(s) * cap\<close> when \<open>|s| > cap\<close>, and \<open>s\<close> otherwise. An emitted share that is not
  NaN lies in \<open>[-cap, +cap]\<close>.
\<close>

theorem share_clipping:
  assumes out: "rolling_decomposition panel ticker w m (Fin cap) = Inr out"
    and mem: "r \<in> set out"
    and stable: "stable_for_shares r"
    and cap: "0 \<le> cap"
  shows "\<exists>i d. i \<in> set (py_range w (int (length (dropna_panel panel)))) \<and>
           decompose_endpoints
             (iloc_slice (sort_key date (dropna_panel panel)) (i - w) (i + 1)) = Inr d \<and>
           r = window_row ticker m (Fin cap) d \<and>
           r_share_eps_pct r = clamp_spec (Fin cap) (share_eps_pct d) \<and>
           r_share_multiple_pct r = clamp_spec (Fin cap) (share_multiple_pct d) \<and>
           (notna (r_share_eps_pct r) \<longrightarrow> in_cap cap (r_share_eps_pct r)) \<and>
           (notna (r_share_multiple_pct r) \<longrightarrow> in_cap cap (r_share_multiple_pct r))"
proof -
  from out mem obtain i d where i: "i \<in> set (py_range w (int (length (dropna_panel panel))))"
    and dec: "decompose_endpoints
                (iloc_slice (sort_key date (dropna_panel panel)) (i - w) (i + 1)) = Inr d"
    and r: "r = window_row ticker m (Fin cap) d"
    by (auto simp: rolling_row_iff)
  from stable have e: "r_share_eps_pct r = np_clip (share_eps_pct d) (fneg (Fin cap)) (Fin cap)"
    and mu: "r_share_multiple_pct r =
               np_clip (share_multiple_pct d) (fneg (Fin cap)) (Fin cap)"
    by (simp_all add: r window_row_def Let_def)
  have "r_share_eps_pct r = clamp_spec (Fin cap) (share_eps_pct d)"
    "r_share_multiple_pct r = clamp_spec (Fin cap) (share_multiple_pct d)"
    using cap by (simp_all only: e mu np_clip_clamp_spec)
  moreover have "in_cap cap (r_share_eps_pct r)" if "notna (r_share_eps_pct r)"
  proof -
    from that have "notna (share_eps_pct d)"
      unfolding e by (cases "share_eps_pct d")
        (simp_all add: notna_def np_clip_def np_maximum_def np_minimum_def)
    then show ?thesis
      unfolding e using cap by (intro np_clip_in_cap)
  qed
  moreover have "in_cap cap (r_share_multiple_pct r)" if "notna (r_share_multiple_pct r)"
  proof -
    from that have "notna (share_multiple_pct d)"
      unfolding mu by (cases "share_multiple_pct d")
        (simp_all add: notna_def np_clip_def np_maximum_def np_minimum_def)
    then show ?thesis
      unfolding mu using cap by (intro np_clip_in_cap)
  qed
  ultimately show ?thesis
    using i dec r by blast
qed

theorem share_clipping_witness:
  "rolling_decomposition example_series ''NVDA'' 1 (Fin 0) (Fin 50)
     = Inr [window_row ''NVDA'' (Fin 0) (Fin 50) example_result]
   \<and> stable_for_shares (window_row ''NVDA'' (Fin 0) (Fin 50) example_result)
   \<and> (0 :: real) \<le> 50
   \<and> r_share_eps_pct (window_row ''NVDA'' (Fin 0) (Fin 50) example_result)
        = clamp_spec (Fin 50) (share_eps_pct example_result)
   \<and> r_share_multiple_pct (window_row ''NVDA'' (Fin 0) (Fin 50) example_result)
        = clamp_spec (Fin 50) (share_multiple_pct example_result)"
proof -
  let ?r = "window_row ''NVDA'' (Fin 0) (Fin 50) example_result"
  have out: "rolling_decomposition example_series ''NVDA'' 1 (Fin 0) (Fin 50) = Inr [?r]"
    by (rule example_rolling)
  have mem: "?r \<in> set [?r]"
    by simp
  have stable: "stable_for_shares ?r"
    by (simp add: window_row_def Let_def example_logs fge_def)
  have cap: "(0 :: real) \<le> 50"
    by simp
  from share_clipping [OF out mem stable cap] obtain i d where
    i: "i \<in> set (py_range 1 (int (length (dropna_panel example_series))))"
    and dec: "decompose_endpoints
       (iloc_slice (sort_key date (dropna_panel example_series)) (i - 1) (i + 1)) = Inr d"
    and sh: "r_share_eps_pct ?r = clamp_spec (Fin 50) (share_eps_pct d)"
      "r_share_multiple_pct ?r = clamp_spec (Fin 50) (share_multiple_pct d)"
    by blast
  from i have "i = 1"
    by (simp add: set_py_range example_series_def dropna_panel_def notna_def)
  with dec example_window have "d = example_result"
    by simp
  with sh out stable show ?thesis
    by simp
qed

text \<open>
  C6. Every record of the rolling output carries the three logarithms of the decomposition
  of its window, whatever the stability flag; when the flag is false both shares are NaN;
  and when the cleaned rows are valid observations none of the three logarithms is NaN.
\<close>

theorem logs_always_emitted:
  assumes out: "rolling_decomposition panel ticker w m c = Inr out"
    and mem: "r \<in> set out"
  shows "(\<exists>i d. i \<in> set (py_range w (int (length (dropna_panel panel)))) \<and>
            decompose_endpoints
              (iloc_slice (sort_key date (dropna_panel panel)) (i - w) (i + 1)) = Inr d \<and>
            r_log_price r = log_price d \<and> r_log_eps r = log_eps d \<and>
            r_log_multiple r = log_multiple d)
       \<and> (\<not> stable_for_shares r \<longrightarrow>
            r_share_eps_pct r = NaN \<and> r_share_multiple_pct r = NaN)
       \<and> (list_all valid_obs (dropna_panel panel) \<longrightarrow>
            notna (r_log_price r) \<and> notna (r_log_eps r) \<and> notna (r_log_multiple r))"
proof -
  from out mem obtain i d where i: "i \<in> set (py_range w (int (length (dropna_panel panel))))"
    and dec: "decompose_endpoints
                (iloc_slice (sort_key date (dropna_panel panel)) (i - w) (i + 1)) = Inr d"
    and r: "r = window_row ticker m c d"
    by (auto simp: rolling_row_iff)
  have logs: "r_log_price r = log_price d" "r_log_eps r = log_eps d"
    "r_log_multiple r = log_multiple d"
    by (simp_all add: r window_row_def Let_def)
  have unstable: "r_share_eps_pct r = NaN \<and> r_share_multiple_pct r = NaN"
    if "\<not> stable_for_shares r"
    using that by (auto simp: r window_row_def Let_def)
  have fin: "notna (r_log_price r) \<and> notna (r_log_eps r) \<and> notna (r_log_multiple r)"
    if "list_all valid_obs (dropna_panel panel)"
    using window_valid_result [OF that dec] by (auto simp: logs notna_def)
  from i dec logs unstable fin show ?thesis
    by blast
qed

theorem logs_always_emitted_witness:
  "rolling_decomposition flat_series ''NVDA'' 1 (Fin (1 / 20)) (Fin 200)
     = Inr [window_row ''NVDA'' (Fin (1 / 20)) (Fin 200) flat_result]
   \<and> \<not> stable_for_shares (window_row ''NVDA'' (Fin (1 / 20)) (Fin 200) flat_result)
   \<and> list_all valid_obs (dropna_panel flat_series)
   \<and> r_log_price (window_row ''NVDA'' (Fin (1 / 20)) (Fin 200) flat_result) = Fin 0
   \<and> r_log_eps (window_row ''NVDA'' (Fin (1 / 20)) (Fin 200) flat_result) = Fin (ln (5 / 4))
   \<and> r_log_multiple (window_row ''NVDA'' (Fin (1 / 20)) (Fin 200) flat_result)
        = Fin (ln (4 / 5))
   \<and> r_share_eps_pct (window_row ''NVDA'' (Fin (1 / 20)) (Fin 200) flat_result) = NaN
   \<and> r_share_multiple_pct (window_row ''NVDA'' (Fin (1 / 20)) (Fin 200) flat_result) = NaN
   \<and> notna (r_log_price (window_row ''NVDA'' (Fin (1 / 20)) (Fin 200) flat_result))
   \<and> notna (r_log_eps (window_row ''NVDA'' (Fin (1 / 20)) (Fin 200) flat_result))
   \<and> notna (r_log_multiple (window_row ''NVDA'' (Fin (1 / 20)) (Fin 200) flat_result))"
proof -
  let ?r = "window_row ''NVDA'' (Fin (1 / 20)) (Fin 200) flat_result"
  have out: "rolling_decomposition flat_series ''NVDA'' 1 (Fin (1 / 20)) (Fin 200) = Inr [?r]"
    by (rule flat_rolling)
  have mem: "?r \<in> set [?r]"
    by simp
  have unstable: "\<not> stable_for_shares ?r"
    by (simp add: window_row_def Let_def flat_result_def endpoint_record_def fge_def)
  have logs: "r_log_price ?r = Fin 0" "r_log_eps ?r = Fin (ln (5 / 4))"
    "r_log_multiple ?r = Fin (ln (4 / 5))"
    by (simp_all add: window_row_def Let_def flat_result_def endpoint_record_def)
  from logs_always_emitted [OF out mem] unstable flat_valid
  have "r_share_eps_pct ?r = NaN \<and> r_share_multiple_pct ?r = NaN \<and>
        notna (r_log_price ?r) \<and> notna (r_log_eps ?r) \<and> notna (r_log_multiple ?r)"
    by blast
  with out unstable flat_valid logs show ?thesis
    by simp
qed

text \<open>
  C7. When the number of rows left after dropping the rows with a missing field is at most
  the window width, the rolling decomposer returns the empty sequence.
\<close>

theorem rolling_window_exceeds_length:
  assumes "int (length (dropna_panel panel)) \<le> w"
  shows "rolling_decomposition panel ticker w m c = Inr []"
  using assms by (simp add: rolling_decomposition_def py_range_empty Let_def)

theorem rolling_window_exceeds_length_witness:
  "int (length (dropna_panel
     [\<lparr>date = (2020, 1, 1), price = Fin 100, pe = Fin 10, eps = Fin 10\<rparr>,
      \<lparr>date = (2020, 2, 1), price = Fin 150, pe = NaN, eps = NaN\<rparr>,
      \<lparr>date = (2020, 3, 1), price = Fin 150, pe = Fin 12, eps = Fin (25 / 2)\<rparr>])) \<le> 2
   \<and> rolling_decomposition
     [\<lparr>date = (2020, 1, 1), price = Fin 100, pe = Fin 10, eps = Fin 10\<rparr>,
      \<lparr>date = (2020, 2, 1), price = Fin 150, pe = NaN, eps = NaN\<rparr>,
      \<lparr>date = (2020, 3, 1), price = Fin 150, pe = Fin 12, eps = Fin (25 / 2)\<rparr>]
     ''NVDA'' 2 (Fin (1 / 20)) (Fin 200) = Inr []"
proof -
  have h: "int (length (dropna_panel
     [\<lparr>date = (2020, 1, 1), price = Fin 100, pe = Fin 10, eps = Fin 10\<rparr>,
      \<lparr>date = (2020, 2, 1), price = Fin 150, pe = NaN, eps = NaN\<rparr>,
      \<lparr>date = (2020, 3, 1), price = Fin 150, pe = Fin 12, eps = Fin (25 / 2)\<rparr>])) \<le> 2"
    by (simp add: dropna_panel_def notna_def)
  from h rolling_window_exceeds_length [OF h] show ?thesis
    by simp
qed

text \<open>
  C8, as the code has it. The implied value computed by the loader from a raw price \<open>p\<close>
  and a raw multiple \<open>m\<close> (both passed through \<open>safe_pos\<close>, then divided, then passed
  through \<open>safe_pos\<close> again) is the quotient \<open>p / m\<close> when price, multiple and the
  computed quotient itself are all positive, and NaN in every other case. All three steps
  are total: nothing is raised.
\<close>

theorem implied_value_contract:
  "implied_eps (safe_pos p) (safe_pos m) =
     (if fgt p (Fin 0) \<and> fgt m (Fin 0) \<and> fgt (fdiv p m) (Fin 0) then fdiv p m else NaN)"
  unfolding implied_eps_def
  by (rule guarded_quotient) (simp_all add: fdiv_NaN_right)

theorem implied_value_contract_witness:
  "implied_eps (safe_pos (Fin 100)) (safe_pos (Fin 10)) = Fin 10
   \<and> implied_eps (safe_pos (Fin 100)) (safe_pos (Fin (- 5))) = NaN
   \<and> implied_eps (safe_pos NaN) (safe_pos (Fin 10)) = NaN
   \<and> implied_eps (safe_pos PInf) (safe_pos PInf) = NaN"
proof -
  from implied_value_contract [of "Fin 100" "Fin 10"]
  have "implied_eps (safe_pos (Fin 100)) (safe_pos (Fin 10)) = Fin 10"
    by (simp add: fgt_def)
  moreover from implied_value_contract [of "Fin 100" "Fin (- 5)"]
  have "implied_eps (safe_pos (Fin 100)) (safe_pos (Fin (- 5))) = NaN"
    by (simp add: fgt_def)
  moreover from implied_value_contract [of NaN "Fin 10"]
  have "implied_eps (safe_pos NaN) (safe_pos (Fin 10)) = NaN"
    by (simp add: fgt_def)
  moreover from implied_value_contract [of PInf PInf]
  have "implied_eps (safe_pos PInf) (safe_pos PInf) = NaN"
    by (simp add: fgt_def)
  ultimately show ?thesis
    by simp
qed

text \<open>
  C8, as the specification states it, fails: with price 5 and an infinite multiple both
  inputs are positive and the quotient is 0, yet the loader gives NaN, because the
  quotient is not positive.
\<close>

theorem implied_value_contract_counterexample:
  "fgt (Fin 5) (Fin 0) \<and> fgt PInf (Fin 0) \<and> fdiv (Fin 5) PInf = Fin 0
   \<and> implied_eps (safe_pos (Fin 5)) (safe_pos PInf) = NaN"
  by (simp add: implied_eps_def safe_pos_def fgt_def)

text \<open>
  C9 fails on the code. Two raw rows fall in January 2020: the first with price 90 and
  multiple 10, the last with price 100 and a negative multiple, which \<open>safe_pos\<close> turns
  into NaN. \<open>GroupBy.last\<close> takes, column by column, the last entry that is not NaN, so
  the month's row pairs the price of the last raw row with the multiple of the first one;
  the last raw row itself would have a missing multiple and a missing implied value. If
  the sort puts the two equal dates the other way round, the month's row is the first raw
  row. Neither is the last raw row.
\<close>

theorem load_month_mixes_rows:
  "load_pe_monthly (sort_key m_date)
     [\<lparr>raw_date = Some (2020, 1, 5), raw_price = Fin 90, raw_pe = Fin 10\<rparr>,
      \<lparr>raw_date = Some (2020, 1, 20), raw_price = Fin 100, raw_pe = Fin (- 5)\<rparr>]
   = [\<lparr>date = (2020, 1, 1), price = Fin 100, pe = Fin 10, eps = Fin 10\<rparr>]
   \<and> sorted_by_date_of
        (normalize_rows
          [\<lparr>raw_date = Some (2020, 1, 5), raw_price = Fin 90, raw_pe = Fin 10\<rparr>,
           \<lparr>raw_date = Some (2020, 1, 20), raw_price = Fin 100, raw_pe = Fin (- 5)\<rparr>])
        (rev (normalize_rows
          [\<lparr>raw_date = Some (2020, 1, 5), raw_price = Fin 90, raw_pe = Fin 10\<rparr>,
           \<lparr>raw_date = Some (2020, 1, 20), raw_price = Fin 100, raw_pe = Fin (- 5)\<rparr>]))
   \<and> load_pe_monthly rev
     [\<lparr>raw_date = Some (2020, 1, 5), raw_price = Fin 90, raw_pe = Fin 10\<rparr>,
      \<lparr>raw_date = Some (2020, 1, 20), raw_price = Fin 100, raw_pe = Fin (- 5)\<rparr>]
   = [\<lparr>date = (2020, 1, 1), price = Fin 90, pe = Fin 10, eps = Fin 9\<rparr>]"
  by (simp add: load_pe_monthly_def normalize_rows_def groupby_date_last_def last_valid_def
      safe_pos_def fgt_def implied_eps_def notna_def sorted_by_date_of_def)

text \<open>
  C10. For a panel whose cleaned rows are valid observations, and a window that
  decomposes, is stable and has both unclamped shares in \<open>[-cap, +cap]\<close>: the record of
  the window is in the output and its two emitted shares are finite and sum to 100.
\<close>

theorem shares_sum_to_100:
  assumes out: "rolling_decomposition panel ticker w m (Fin cap) = Inr out"
    and valid: "list_all valid_obs (dropna_panel panel)"
    and i: "i \<in> set (py_range w (int (length (dropna_panel panel))))"
    and dec: "decompose_endpoints
                (iloc_slice (sort_key date (dropna_panel panel)) (i - w) (i + 1)) = Inr d"
    and stable: "stable_for_shares (window_row ticker m (Fin cap) d)"
    and ine: "in_cap cap (share_eps_pct d)"
    and inm: "in_cap cap (share_multiple_pct d)"
  shows "window_row ticker m (Fin cap) d \<in> set out \<and>
         (\<exists>x y. r_share_eps_pct (window_row ticker m (Fin cap) d) = Fin x \<and>
                r_share_multiple_pct (window_row ticker m (Fin cap) d) = Fin y \<and>
                x + y = 100)"
proof
  show "window_row ticker m (Fin cap) d \<in> set out"
    using i dec by (auto simp: rolling_row_iff [OF out])
next
  let ?r = "window_row ticker m (Fin cap) d"
  from window_valid_result [OF valid dec] obtain a b c where
    sum: "a = b + c"
    and se: "share_eps_pct d = pct_of (share_of (Fin b) (share_denom (Fin a)))"
    and sm: "share_multiple_pct d = pct_of (share_of (Fin c) (share_denom (Fin a)))"
    by blast
  from ine obtain x where x: "share_eps_pct d = Fin x"
    by (rule in_cap_FinE)
  from inm obtain y where y: "share_multiple_pct d = Fin y"
    by (rule in_cap_FinE)
  from x se have xa: "a \<noteq> 0 \<and> x = 100 * (b / a)"
    by (intro pct_share_Fin) simp
  from y sm have ya: "a \<noteq> 0 \<and> y = 100 * (c / a)"
    by (intro pct_share_Fin) simp
  have "x + y = 100 * ((b + c) / a)"
    using xa ya by (simp add: add_divide_distrib distrib_left)
  also have "\<dots> = 100"
    using xa sum by simp
  finally have xy: "x + y = 100" .
  from stable have st: "isfinite (log_price d) \<and> fge (fabs (log_price d)) m"
    by (simp add: window_row_def Let_def)
  have "r_share_eps_pct ?r = np_clip (share_eps_pct d) (fneg (Fin cap)) (Fin cap)"
    "r_share_multiple_pct ?r = np_clip (share_multiple_pct d) (fneg (Fin cap)) (Fin cap)"
    using st by (simp_all add: window_row_def Let_def)
  with ine inm have "r_share_eps_pct ?r = Fin x" "r_share_multiple_pct ?r = Fin y"
    by (simp_all only: np_clip_inside x y)
  with xy show "\<exists>x y. r_share_eps_pct ?r = Fin x \<and> r_share_multiple_pct ?r = Fin y \<and>
                x + y = 100"
    by blast
qed

theorem shares_sum_to_100_witness:
  "rolling_decomposition example_series ''NVDA'' 1 (Fin (1 / 20)) (Fin 200)
     = Inr [window_row ''NVDA'' (Fin (1 / 20)) (Fin 200) example_result]
   \<and> list_all valid_obs (dropna_panel example_series)
   \<and> stable_for_shares (window_row ''NVDA'' (Fin (1 / 20)) (Fin 200) example_result)
   \<and> in_cap 200 (share_eps_pct example_result)
   \<and> in_cap 200 (share_multiple_pct example_result)
   \<and> (\<exists>x y. r_share_eps_pct (window_row ''NVDA'' (Fin (1 / 20)) (Fin 200) example_result)
                = Fin x \<and>
              r_share_multiple_pct (window_row ''NVDA'' (Fin (1 / 20)) (Fin 200) example_result)
                = Fin y \<and>
              x + y = 100)"
proof -
  let ?r = "window_row ''NVDA'' (Fin (1 / 20)) (Fin 200) example_result"
  have out: "rolling_decomposition example_series ''NVDA'' 1 (Fin (1 / 20)) (Fin 200)
               = Inr [?r]"
    by (rule example_rolling)
  have i: "1 \<in> set (py_range 1 (int (length (dropna_panel example_series))))"
    by (simp add: set_py_range example_series_def dropna_panel_def notna_def)
  have "(1 :: real) / 20 \<le> \<bar>ln (3 / 2)\<bar>"
    using ln_three_halves_ge by linarith
  then have stable: "stable_for_shares ?r"
    by (auto simp: window_row_def Let_def example_logs fge_def)
  from shares_sum_to_100 [OF out example_valid i example_window stable
      example_shares_in_cap]
  have "\<exists>x y. r_share_eps_pct ?r = Fin x \<and> r_share_multiple_pct ?r = Fin y \<and> x + y = 100"
    by blast
  with out example_valid stable example_shares_in_cap show ?thesis
    by blast
qed


end
